theory Spec2Isabelle
  imports Complex_Main
begin

section \<open>Input extraction: \<^verbatim>\<open>parse_dice_rolls_from_input\<close>\<close>

text \<open>
  Python's \<^verbatim>\<open>str\<close> is a sequence of Unicode code points, so the input text is a list of
  natural numbers (one per code point). \<open>ascii\<close> embeds an ASCII literal.
\<close>

type_synonym pystr = "nat list"

definition ascii :: "string \<Rightarrow> pystr" where
  "ascii s = map of_char s"

text \<open>
  The word characters of \<^verbatim>\<open>re\<close> for a \<^verbatim>\<open>str\<close> pattern are the alphanumeric code points and
  the underscore (code point 95). Below 128 the alphanumerics are the ASCII digits and letters.
  The Unicode database that classifies the code points from 128 on is not part of the
  repository: it is the parameter \<open>uni_alnum\<close>, consulted for those code points only.
\<close>

definition is_ascii_alnum :: "nat \<Rightarrow> bool" where
  "is_ascii_alnum c =
     ((48 \<le> c \<and> c \<le> 57) \<or> (65 \<le> c \<and> c \<le> 90) \<or> (97 \<le> c \<and> c \<le> 122))"

definition is_word :: "(nat \<Rightarrow> bool) \<Rightarrow> nat \<Rightarrow> bool" where
  "is_word uni_alnum c = (if c < 128 then is_ascii_alnum c \<or> c = 95 else uni_alnum c)"

text \<open>
  \<^verbatim>\<open>\b\<close> at position \<open>p\<close> (between the characters \<open>p - 1\<close> and \<open>p\<close>): the character before
  and the character after differ in being word characters; outside the text counts as a
  non-word character.
\<close>

definition at_boundary :: "(nat \<Rightarrow> bool) \<Rightarrow> pystr \<Rightarrow> nat \<Rightarrow> bool" where
  "at_boundary uni_alnum text p =
     (let thatp = (if 0 < p then is_word uni_alnum (text ! (p - 1)) else False);
          thisp = (if p < length text then is_word uni_alnum (text ! p) else False)
      in thisp \<noteq> thatp)"

text \<open>The character class \<^verbatim>\<open>[1-6]\<close>: the code points 49 to 54.\<close>

definition in_class_1_6 :: "nat \<Rightarrow> bool" where
  "in_class_1_6 c = (49 \<le> c \<and> c \<le> 54)"

text \<open>The pattern \<^verbatim>\<open>\b[1-6]\b\<close> matches at position \<open>p\<close> (the match is the one character there).\<close>

definition match_at :: "(nat \<Rightarrow> bool) \<Rightarrow> pystr \<Rightarrow> nat \<Rightarrow> bool" where
  "match_at uni_alnum text p =
     (at_boundary uni_alnum text p \<and> p < length text \<and> in_class_1_6 (text ! p)
      \<and> at_boundary uni_alnum text (p + 1))"

text \<open>
  \<^verbatim>\<open>re.findall\<close> scans from the left: at each position it tries the pattern, and after a match
  it goes on from the end of the match (here one character further).
\<close>

function findall_from :: "(nat \<Rightarrow> bool) \<Rightarrow> pystr \<Rightarrow> nat \<Rightarrow> pystr list" where
  "findall_from uni_alnum text p =
     (if length text \<le> p then []
      else if match_at uni_alnum text p
        then [text ! p] # findall_from uni_alnum text (p + 1)
        else findall_from uni_alnum text (p + 1))"
  by pat_completeness auto
termination
  by (relation "measure (\<lambda>(uni_alnum, text, p). length text - p)") auto

declare findall_from.simps [simp del]

definition re_findall :: "(nat \<Rightarrow> bool) \<Rightarrow> pystr \<Rightarrow> pystr list" where
  "re_findall uni_alnum text = findall_from uni_alnum text 0"

text \<open>\<^verbatim>\<open>int(num)\<close> on a string of ASCII decimal digits.\<close>

definition py_int :: "pystr \<Rightarrow> int" where
  "py_int s = foldl (\<lambda>acc c. acc * 10 + (int c - 48)) 0 s"

text \<open>
  The standard input is either a read failure (the exception's message) or the text read.
  The function returns the rolls, or leaves through \<^verbatim>\<open>sys.exit(1)\<close> after writing lines to the
  error stream: \<open>Inl (lines, code)\<close>.
\<close>

definition parse_dice_rolls_from_input ::
  "(nat \<Rightarrow> bool) \<Rightarrow> string + pystr \<Rightarrow> (string list \<times> int) + int list" where
  "parse_dice_rolls_from_input uni_alnum stdin =
     (case stdin of
        Inl e \<Rightarrow> Inl ([''Error reading input: '' @ e], 1)
      | Inr input_text \<Rightarrow>
          (let numbers = re_findall uni_alnum input_text;
               rolls = map py_int numbers
           in if rolls = []
              then Inl ([''Error: No valid dice rolls found in input.'',
                         ''Expected integers 1-6 in the piped input.''], 1)
              else Inr rolls))"

text \<open>
  The extraction as the specification words it, for comparison with the code. A position holds
  a digit 1 to 6; its neighbours are the characters just before and just after it, where
  they exist.
\<close>

definition neighbour_before :: "(nat \<Rightarrow> bool) \<Rightarrow> pystr \<Rightarrow> nat \<Rightarrow> bool" where
  "neighbour_before P text p = (0 < p \<and> P (text ! (p - 1)))"

definition neighbour_after :: "(nat \<Rightarrow> bool) \<Rightarrow> pystr \<Rightarrow> nat \<Rightarrow> bool" where
  "neighbour_after P text p = (p + 1 < length text \<and> P (text ! (p + 1)))"

definition standalone_rolls :: "(nat \<Rightarrow> bool) \<Rightarrow> pystr \<Rightarrow> int list" where
  "standalone_rolls P text =
     map (\<lambda>p. int (text ! p) - 48)
       (filter (\<lambda>p. in_class_1_6 (text ! p)
                   \<and> \<not> neighbour_before P text p \<and> \<not> neighbour_after P text p)
          [0..<length text])"

definition is_digit :: "nat \<Rightarrow> bool" where
  "is_digit c = (48 \<le> c \<and> c \<le> 57)"

text \<open>
  A classification with no alphanumeric code point from 128 on, for the examples on ASCII
  texts (they never consult it).
\<close>

definition ascii_table :: "nat \<Rightarrow> bool" where
  "ascii_table c = False"

definition no_rolls_exit :: "string list \<times> int" where
  "no_rolls_exit = ([''Error: No valid dice rolls found in input.'',
                     ''Expected integers 1-6 in the piped input.''], 1)"

section \<open>The analysis: \<^verbatim>\<open>analyze_distribution\<close>\<close>

text \<open>
  The rolls are Python integers. A Python float is a double, and every finite double is a
  real number; how an operation on doubles rounds its result is not part of the repository.
  So the arithmetic that the function itself performs on floats is a parameter: \<open>fp_div\<close>,
  \<open>fp_mul\<close>, \<open>fp_add\<close> and \<open>fp_sub\<close> are \<^verbatim>\<open>/\<close>, \<^verbatim>\<open>*\<close>, \<^verbatim>\<open>+\<close> and \<^verbatim>\<open>-\<close> where a float
  is involved or results, \<open>fp_pow\<close> is \<^verbatim>\<open>**\<close>, and \<open>fp_literal\<close> gives the double that a
  decimal literal of the program text denotes. The numbers of this program stay far inside
  the range of the doubles, so no infinity arises from them. \<open>exact_ops\<close> is the arithmetic
  without rounding.
\<close>

record float_ops =
  fp_div :: "real \<Rightarrow> real \<Rightarrow> real"
  fp_mul :: "real \<Rightarrow> real \<Rightarrow> real"
  fp_add :: "real \<Rightarrow> real \<Rightarrow> real"
  fp_sub :: "real \<Rightarrow> real \<Rightarrow> real"
  fp_pow :: "real \<Rightarrow> nat \<Rightarrow> real"
  fp_literal :: "real \<Rightarrow> real"

definition exact_ops :: float_ops where
  "exact_ops =
     \<lparr>fp_div = (\<lambda>a b. a / b), fp_mul = (\<lambda>a b. a * b), fp_add = (\<lambda>a b. a + b),
      fp_sub = (\<lambda>a b. a - b), fp_pow = (\<lambda>a n. a ^ n), fp_literal = (\<lambda>a. a)\<rparr>"

text \<open>
  A Python division raises \<^verbatim>\<open>ZeroDivisionError\<close> on a zero divisor. NumPy's reductions
  (\<^verbatim>\<open>np.mean\<close>, \<^verbatim>\<open>np.median\<close>, \<^verbatim>\<open>np.std\<close>) are modelled in exact arithmetic, with the
  infinities and NaN that a NumPy division returns on a zero divisor.
\<close>

datatype py_error = ZeroDivisionError | ValueError

datatype npfloat = Fin real | PInf | NInf | NaN

definition py_truediv :: "float_ops \<Rightarrow> real \<Rightarrow> real \<Rightarrow> py_error + real" where
  "py_truediv ops a b = (if b = 0 then Inl ZeroDivisionError else Inr (fp_div ops a b))"

definition np_true_divide :: "real \<Rightarrow> real \<Rightarrow> npfloat" where
  "np_true_divide a b =
     (if b \<noteq> 0 then Fin (a / b) else if a = 0 then NaN else if 0 < a then PInf else NInf)"

definition np_sqrt :: "npfloat \<Rightarrow> npfloat" where
  "np_sqrt v =
     (case v of Fin x \<Rightarrow> (if x < 0 then NaN else Fin (sqrt x)) | PInf \<Rightarrow> PInf
      | NInf \<Rightarrow> NaN | NaN \<Rightarrow> NaN)"

text \<open>
  What the function prints, one value per \<^verbatim>\<open>print\<close> call, in order. A line that formats
  numbers carries the numbers (the layout of the digits is left out); a fixed line is its text.
\<close>

datatype verdict = AppearsFair | MayNotBeFair

datatype out_line =
    Text string
  | TotalRolls nat
  | FaceRow int nat real real real
  | ChiSquare real
  | Verdict verdict
  | MeanLine npfloat
  | MedianLine npfloat
  | StdDevLine npfloat
  | MinMaxLine int int
  | RangeRow string nat real
  | MaxConsecutiveLine nat
  | ConsecutiveSameLine nat

subsection \<open>Frequencies\<close>

text \<open>
  \<^verbatim>\<open>Counter(rolls)\<close> maps each value that occurs to its number of occurrences; reading a key
  that is absent gives 0.
\<close>

definition counter_add :: "(int \<rightharpoonup> nat) \<Rightarrow> int \<Rightarrow> (int \<rightharpoonup> nat)" where
  "counter_add m k = m(k \<mapsto> (case m k of None \<Rightarrow> 0 | Some c \<Rightarrow> c) + 1)"

definition Counter :: "int list \<Rightarrow> (int \<rightharpoonup> nat)" where
  "Counter rolls = foldl counter_add Map.empty rolls"

definition counter_get :: "(int \<rightharpoonup> nat) \<Rightarrow> int \<Rightarrow> nat" where
  "counter_get m k = (case m k of None \<Rightarrow> 0 | Some c \<Rightarrow> c)"

text \<open>
  The loop over \<^verbatim>\<open>range(1, 7)\<close>: the faces still to visit, the running \<^verbatim>\<open>total_chi_square\<close>
  and the lines printed so far. An error leaves the loop with the lines printed until then.
\<close>

fun face_loop ::
  "float_ops \<Rightarrow> int list \<Rightarrow> (int \<rightharpoonup> nat) \<Rightarrow> real \<Rightarrow> int list \<Rightarrow> real \<Rightarrow> out_line list
     \<Rightarrow> out_line list \<times> (py_error + real)" where
  "face_loop ops rolls counts expected_freq [] total_chi_square out =
     (out, Inr total_chi_square)"
| "face_loop ops rolls counts expected_freq (face # faces) total_chi_square out =
     (let count = counter_get counts face in
      case py_truediv ops (real count) (real (length rolls)) of
        Inl e \<Rightarrow> (out, Inl e)
      | Inr q \<Rightarrow>
          (let percentage = fp_mul ops q 100;
               deviation = fp_sub ops (real count) expected_freq in
           case py_truediv ops (fp_pow ops deviation 2) expected_freq of
             Inl e \<Rightarrow> (out, Inl e)
           | Inr chi_square_component \<Rightarrow>
               face_loop ops rolls counts expected_freq faces
                 (fp_add ops total_chi_square chi_square_component)
                 (out @ [FaceRow face count percentage expected_freq deviation])))"

text \<open>
  The comparison \<^verbatim>\<open>total_chi_square < 11.070\<close> is between two doubles, and exact on them.
\<close>

definition critical_value :: "float_ops \<Rightarrow> real" where
  "critical_value ops = fp_literal ops 11.070"

definition verdict_of :: "float_ops \<Rightarrow> real \<Rightarrow> verdict" where
  "verdict_of ops total_chi_square =
     (if total_chi_square < critical_value ops then AppearsFair else MayNotBeFair)"

subsection \<open>Mean, median, standard deviation\<close>

definition np_mean :: "int list \<Rightarrow> npfloat" where
  "np_mean arr = np_true_divide (real_of_int (sum_list arr)) (real (length arr))"

definition np_median :: "int list \<Rightarrow> npfloat" where
  "np_median arr =
     (let n = length arr; sorted_arr = sort arr in
      if n = 0 then NaN
      else if odd n then Fin (real_of_int (sorted_arr ! (n div 2)))
      else Fin ((real_of_int (sorted_arr ! (n div 2 - 1))
                 + real_of_int (sorted_arr ! (n div 2))) / 2))"

text \<open>
  \<^verbatim>\<open>np.std(arr, ddof=ddof)\<close>: the mean, the squared deviations from it, their sum divided by
  \<^verbatim>\<open>max(N - ddof, 0)\<close> (the truncating subtraction of \<open>nat\<close>), and the square root. On the
  empty array the mean is NaN and so is the result. NumPy reports a zero divisor by a
  warning on the error stream, which is not part of the lines modelled here, and goes on.
\<close>

definition np_var :: "int list \<Rightarrow> nat \<Rightarrow> npfloat" where
  "np_var arr ddof =
     (case np_mean arr of
        Fin arrmean \<Rightarrow>
          (let x = map (\<lambda>a. real_of_int a - arrmean) arr;
               ret = sum_list (map (\<lambda>d. d * d) x);
               rcount = length arr - ddof
           in np_true_divide ret (real rcount))
      | _ \<Rightarrow> NaN)"

definition np_std :: "int list \<Rightarrow> nat \<Rightarrow> npfloat" where
  "np_std arr ddof = np_sqrt (np_var arr ddof)"

text \<open>\<^verbatim>\<open>min\<close> and \<^verbatim>\<open>max\<close> of a list raise \<^verbatim>\<open>ValueError\<close> on the empty list.\<close>

definition py_min :: "int list \<Rightarrow> py_error + int" where
  "py_min xs = (case xs of [] \<Rightarrow> Inl ValueError | x # ys \<Rightarrow> Inr (foldl min x ys))"

definition py_max :: "int list \<Rightarrow> py_error + int" where
  "py_max xs = (case xs of [] \<Rightarrow> Inl ValueError | x # ys \<Rightarrow> Inr (foldl max x ys))"

subsection \<open>Range buckets\<close>

definition ranges :: "int list \<Rightarrow> (string \<times> nat) list" where
  "ranges rolls =
     [(''1-2 (low)'', length (filter (\<lambda>r. r \<in> set [1, 2]) rolls)),
      (''3-4 (mid)'', length (filter (\<lambda>r. r \<in> set [3, 4]) rolls)),
      (''5-6 (high)'', length (filter (\<lambda>r. r \<in> set [5, 6]) rolls))]"

fun range_loop ::
  "float_ops \<Rightarrow> int list \<Rightarrow> (string \<times> nat) list \<Rightarrow> out_line list
     \<Rightarrow> out_line list \<times> (py_error + unit)" where
  "range_loop ops rolls [] out = (out, Inr ())"
| "range_loop ops rolls ((range_name, count) # rest) out =
     (case py_truediv ops (real count) (real (length rolls)) of
        Inl e \<Rightarrow> (out, Inl e)
      | Inr q \<Rightarrow>
          range_loop ops rolls rest (out @ [RangeRow range_name count (fp_mul ops q 100)]))"

subsection \<open>Consecutive patterns\<close>

text \<open>
  The three counters of the loop over \<^verbatim>\<open>range(1, len(rolls))\<close>. Every index \<open>i\<close> the loop
  visits has \<open>i\<close> and \<open>i - 1\<close> inside the list.
\<close>

record pattern_state =
  consecutive_same :: nat
  max_consecutive :: nat
  current_consecutive :: nat

definition pattern_init :: pattern_state where
  "pattern_init = \<lparr>consecutive_same = 0, max_consecutive = 1, current_consecutive = 1\<rparr>"

definition pattern_step :: "int list \<Rightarrow> pattern_state \<Rightarrow> nat \<Rightarrow> pattern_state" where
  "pattern_step rolls st i =
     (if rolls ! i = rolls ! (i - 1)
      then st\<lparr>current_consecutive := current_consecutive st + 1,
               max_consecutive := max (max_consecutive st) (current_consecutive st + 1)\<rparr>
      else st\<lparr>consecutive_same :=
                 (if current_consecutive st > 1 then consecutive_same st + 1
                  else consecutive_same st),
               current_consecutive := 1\<rparr>)"

definition pattern_loop :: "int list \<Rightarrow> pattern_state" where
  "pattern_loop rolls = foldl (pattern_step rolls) pattern_init [1..<length rolls]"

subsection \<open>The whole function\<close>

text \<open>
  A run of the function: the lines it printed, the content of the list it was given when it
  ends, and how it ends (\<^verbatim>\<open>None\<close> returned, or an exception).
\<close>

record run =
  printed :: "out_line list"
  rolls_after :: "int list"
  outcome :: "py_error + unit"

definition dashes :: out_line where
  "dashes = Text (replicate 50 CHR ''-'')"

definition analyze_distribution :: "float_ops \<Rightarrow> int list \<Rightarrow> run" where
  "analyze_distribution ops rolls =
     (let out0 = [Text ''=== DICE ROLL DISTRIBUTION ANALYSIS ==='',
                  TotalRolls (length rolls), Text ''''];
          counts = Counter rolls;
          expected_freq = fp_div ops (real (length rolls)) 6;
          out1 = out0 @ [Text ''FREQUENCY ANALYSIS:'',
                         Text ''Face | Count | Percentage | Expected | Deviation'', dashes]
      in case face_loop ops rolls counts expected_freq [1, 2, 3, 4, 5, 6] 0 out1 of
        (out2, Inl e) \<Rightarrow> \<lparr>printed = out2, rolls_after = rolls, outcome = Inl e\<rparr>
      | (out2, Inr total_chi_square) \<Rightarrow>
          (let out3 = out2 @ [dashes, ChiSquare total_chi_square,
                              Text ''Critical value (5% significance, 5 df): 11.070'',
                              Verdict (verdict_of ops total_chi_square), Text ''''];
               mean = np_mean rolls;
               median = np_median rolls;
               std_dev = np_std rolls 1;
               out4 = out3 @ [Text ''STATISTICAL MEASURES:'', MeanLine mean, MedianLine median,
                              StdDevLine std_dev]
           in case py_min rolls of
             Inl e \<Rightarrow> \<lparr>printed = out4, rolls_after = rolls, outcome = Inl e\<rparr>
           | Inr lo \<Rightarrow>
               (case py_max rolls of
                  Inl e \<Rightarrow> \<lparr>printed = out4, rolls_after = rolls, outcome = Inl e\<rparr>
                | Inr hi \<Rightarrow>
                    (let out5 = out4 @ [MinMaxLine lo hi, Text '''', Text ''RANGE ANALYSIS:'']
                     in case range_loop ops rolls (ranges rolls) out5 of
                       (out6, Inl e) \<Rightarrow>
                         \<lparr>printed = out6, rolls_after = rolls, outcome = Inl e\<rparr>
                     | (out6, Inr u) \<Rightarrow>
                         (let st = pattern_loop rolls;
                              out7 = out6 @ [Text '''', Text ''PATTERN ANALYSIS:'',
                                             MaxConsecutiveLine (max_consecutive st),
                                             ConsecutiveSameLine (consecutive_same st)]
                          in \<lparr>printed = out7, rolls_after = rolls, outcome = Inr ()\<rparr>)))))"

section \<open>The notions of the specification\<close>

text \<open>
  The maximal runs of a sequence: it is cut wherever two neighbours differ, and nowhere else.
\<close>

fun runs :: "int list \<Rightarrow> int list list" where
  "runs [] = []"
| "runs (x # xs) =
     (case runs xs of
        [] \<Rightarrow> [[x]]
      | r # rs \<Rightarrow> (if hd r = x then (x # r) # rs else [x] # r # rs))"

definition max_run :: "int list \<Rightarrow> nat" where
  "max_run rolls = Max (set (map length (runs rolls)))"

definition run_count :: "int list \<Rightarrow> nat" where
  "run_count rolls = length (filter (\<lambda>r. 1 < length r) (runs rolls))"

text \<open>The chi-square statistic over the six faces, from the numbers of occurrences.\<close>

definition chi_square_spec :: "int list \<Rightarrow> real" where
  "chi_square_spec rolls =
     (\<Sum>f \<leftarrow> [1, 2, 3, 4, 5, 6].
        (real (count_list rolls f) - real (length rolls) / 6) ^ 2 / (real (length rolls) / 6))"

text \<open>The sample standard deviation with Bessel's correction.\<close>

definition sample_std_spec :: "int list \<Rightarrow> real" where
  "sample_std_spec rolls =
     (let n = real (length rolls); m = real_of_int (sum_list rolls) / n
      in sqrt ((\<Sum>x \<leftarrow> rolls. (real_of_int x - m) ^ 2) / (n - 1)))"

text \<open>
  The line of the frequency table for one face and the statistic that the six rounds of the
  loop add up, from the numbers of occurrences and in the arithmetic of the run.
\<close>

definition face_row :: "float_ops \<Rightarrow> int list \<Rightarrow> int \<Rightarrow> out_line" where
  "face_row ops rolls f =
     FaceRow f (count_list rolls f)
       (fp_mul ops (fp_div ops (real (count_list rolls f)) (real (length rolls))) 100)
       (fp_div ops (real (length rolls)) 6)
       (fp_sub ops (real (count_list rolls f)) (fp_div ops (real (length rolls)) 6))"

definition chi_square_component :: "float_ops \<Rightarrow> int list \<Rightarrow> int \<Rightarrow> real" where
  "chi_square_component ops rolls f =
     fp_div ops
       (fp_pow ops (fp_sub ops (real (count_list rolls f)) (fp_div ops (real (length rolls)) 6)) 2)
       (fp_div ops (real (length rolls)) 6)"

definition accumulated_chi_square :: "float_ops \<Rightarrow> int list \<Rightarrow> real" where
  "accumulated_chi_square ops rolls =
     foldl (\<lambda>total_chi_square f. fp_add ops total_chi_square (chi_square_component ops rolls f))
       0 [1, 2, 3, 4, 5, 6]"

section \<open>Properties of the input extraction\<close>

lemma findall_from_filter:
  "findall_from t s p = map (\<lambda>q. [s ! q]) (filter (match_at t s) [p..<length s])"
proof (induction t s p rule: findall_from.induct)
  case (1 t s p)
  show ?case
  proof (cases "length s \<le> p")
    case True
    then show ?thesis by (subst findall_from.simps) simp
  next
    case False
    then have up: "[p..<length s] = p # [p + 1..<length s]"
      by (simp add: upt_conv_Cons)
    from False 1 show ?thesis
      by (subst findall_from.simps) (simp add: up)
  qed
qed

lemma in_class_is_word: "in_class_1_6 c \<Longrightarrow> is_word t c"
  by (simp add: in_class_1_6_def is_word_def is_ascii_alnum_def)

lemma match_at_iff:
  "p < length s \<Longrightarrow>
   match_at t s p =
     (in_class_1_6 (s ! p) \<and> \<not> neighbour_before (is_word t) s p
      \<and> \<not> neighbour_after (is_word t) s p)"
  by (auto simp: match_at_def at_boundary_def neighbour_before_def neighbour_after_def
        in_class_is_word)

lemma py_int_single: "py_int [c] = int c - 48"
  by (simp add: py_int_def)

lemma rolls_standalone:
  "map py_int (re_findall t s) = standalone_rolls (is_word t) s"
proof -
  have "filter (match_at t s) [0..<length s] =
        filter (\<lambda>p. in_class_1_6 (s ! p) \<and> \<not> neighbour_before (is_word t) s p
                   \<and> \<not> neighbour_after (is_word t) s p) [0..<length s]"
    by (rule filter_cong) (simp_all add: match_at_iff)
  then show ?thesis
    by (simp add: re_findall_def findall_from_filter standalone_rolls_def py_int_single o_def)
qed

lemma parse_standalone:
  "parse_dice_rolls_from_input t (Inr s) =
     (if standalone_rolls (is_word t) s = [] then Inl no_rolls_exit
      else Inr (standalone_rolls (is_word t) s))"
  unfolding parse_dice_rolls_from_input_def Let_def no_rolls_exit_def rolls_standalone
  by simp

lemmas standalone_eval =
  ascii_def standalone_rolls_def neighbour_before_def neighbour_after_def is_word_def
  is_ascii_alnum_def in_class_1_6_def is_digit_def upt_rec

text \<open>
  C2, as amended. For every input text the parser returns, in order of appearance and as
  integers, exactly the digits 1 to 6 that have no word character (letter, digit or
  underscore) next to them on either side, and leaves with exit code 1 when there is none.
  The text "16 2 3" gives [2, 3] and the text "1 6 2 3" gives [1, 6, 2, 3].
\<close>

theorem parser_extracts_standalone_tokens:
  "parse_dice_rolls_from_input t (Inr s) =
     (if standalone_rolls (is_word t) s = [] then Inl no_rolls_exit
      else Inr (standalone_rolls (is_word t) s))
   \<and> parse_dice_rolls_from_input t (Inr (ascii ''16 2 3'')) = Inr [2, 3]
   \<and> parse_dice_rolls_from_input t (Inr (ascii ''1 6 2 3'')) = Inr [1, 6, 2, 3]"
proof -
  have "standalone_rolls (is_word t) (ascii ''16 2 3'') = [2, 3]"
    by (simp add: standalone_eval)
  moreover have "standalone_rolls (is_word t) (ascii ''1 6 2 3'') = [1, 6, 2, 3]"
    by (simp add: standalone_eval)
  ultimately show ?thesis
    by (simp add: parse_standalone)
qed

theorem parser_extracts_standalone_tokens_witness:
  "parse_dice_rolls_from_input ascii_table (Inr (ascii ''3,16,5'')) = Inr [3, 5]"
  using parser_extracts_standalone_tokens [of ascii_table "ascii ''3,16,5''"]
  by (simp add: standalone_eval)

text \<open>
  C2 as stated fails: in the text "d6 2" the digit 6 has no digit next to it, so the claim
  takes it for a standalone token, and the parser returns [2] only.
\<close>

theorem digit_adjacency_counterexample:
  "parse_dice_rolls_from_input ascii_table (Inr (ascii ''d6 2'')) = Inr [2]
   \<and> standalone_rolls is_digit (ascii ''d6 2'') = [6, 2]"
  by (simp add: parse_standalone standalone_eval)

text \<open>
  C10. For every input text, the matches of the pattern, converted to integers, are exactly
  the digits 1 to 6 with no word character (letter, digit or underscore) next to them on
  either side. The digit of "a1" and the digit of "roll_3" give no roll; the digit of "(3)"
  is extracted.
\<close>

theorem findall_skips_digits_next_to_word_characters:
  "map py_int (re_findall t s) = standalone_rolls (is_word t) s
   \<and> map py_int (re_findall t (ascii ''a1'')) = []
   \<and> map py_int (re_findall t (ascii ''roll_3'')) = []
   \<and> map py_int (re_findall t (ascii ''(3)'')) = [3]"
proof -
  have "standalone_rolls (is_word t) (ascii ''a1'') = []"
    by (simp add: standalone_eval)
  moreover have "standalone_rolls (is_word t) (ascii ''roll_3'') = []"
    by (simp add: standalone_eval)
  moreover have "standalone_rolls (is_word t) (ascii ''(3)'') = [3]"
    by (simp add: standalone_eval)
  ultimately show ?thesis
    by (simp add: rolls_standalone)
qed

theorem findall_skips_digits_next_to_word_characters_witness:
  "map py_int (re_findall ascii_table (ascii ''x4 (5) 6_ 2'')) = [5, 2]"
  using findall_skips_digits_next_to_word_characters [of ascii_table "ascii ''x4 (5) 6_ 2''"]
  by (simp add: standalone_eval)

section \<open>Properties of the analysis\<close>

subsection \<open>The frequency loop and the printed lines\<close>

lemma counter_get_foldl:
  "counter_get (foldl counter_add m rolls) k = counter_get m k + count_list rolls k"
  by (induction rolls arbitrary: m) (auto simp: counter_get_def counter_add_def)

lemma counter_get_Counter: "counter_get (Counter rolls) k = count_list rolls k"
  by (simp add: Counter_def counter_get_foldl) (simp add: counter_get_def)

text \<open>
  The function raises no error when the sequence is not empty and the expected frequency,
  the double for a sixth of the length, is not zero (it never is: the length is 1 at least).
\<close>

lemma face_loop_nonempty:
  assumes "rolls \<noteq> []" and "fp_div ops (real (length rolls)) 6 \<noteq> 0"
  shows "face_loop ops rolls (Counter rolls) (fp_div ops (real (length rolls)) 6) faces tot out =
     (out @ map (face_row ops rolls) faces,
      Inr (foldl (\<lambda>t f. fp_add ops t (chi_square_component ops rolls f)) tot faces))"
  using assms
  by (induction faces arbitrary: tot out)
     (simp_all add: py_truediv_def counter_get_Counter Let_def face_row_def
        chi_square_component_def)

lemma range_loop_nonempty:
  assumes "rolls \<noteq> []"
  shows "range_loop ops rolls rs out =
     (out @ map (\<lambda>(name, count). RangeRow name count
                   (fp_mul ops (fp_div ops (real count) (real (length rolls))) 100)) rs,
      Inr ())"
  using assms
  by (induction rs arbitrary: out) (auto simp: py_truediv_def)

lemma accumulated_chi_square_exact: "accumulated_chi_square exact_ops rolls = chi_square_spec rolls"
  unfolding accumulated_chi_square_def chi_square_spec_def
  by (simp add: exact_ops_def chi_square_component_def)

lemma exact_expected_nonzero:
  "rolls \<noteq> [] \<Longrightarrow> fp_div exact_ops (real (length rolls)) 6 \<noteq> 0"
  by (simp add: exact_ops_def)

lemma py_min_nonempty: "rolls \<noteq> [] \<Longrightarrow> py_min rolls = Inr (foldl min (hd rolls) (tl rolls))"
  by (cases rolls) (simp_all add: py_min_def)

lemma py_max_nonempty: "rolls \<noteq> [] \<Longrightarrow> py_max rolls = Inr (foldl max (hd rolls) (tl rolls))"
  by (cases rolls) (simp_all add: py_max_def)

subsection \<open>Maximal runs and the pattern loop\<close>

lemma runs_Nil_iff: "runs xs = [] \<longleftrightarrow> xs = []"
  by (cases xs) (simp_all split: list.splits)

lemma runs_nonempty_elems: "r \<in> set (runs xs) \<Longrightarrow> r \<noteq> []"
  by (induction xs arbitrary: r) (auto split: list.splits if_splits)

lemma runs_Cons_nonempty: "runs xs = r # rs \<Longrightarrow> r \<noteq> []"
  using runs_nonempty_elems [of r xs] by simp

lemma runs_snoc:
  "xs \<noteq> [] \<Longrightarrow> runs (xs @ [x]) =
     (if last xs = x then butlast (runs xs) @ [last (runs xs) @ [x]] else runs xs @ [[x]])"
proof (induction xs)
  case Nil
  then show ?case by simp
next
  case (Cons a xs)
  show ?case
  proof (cases "xs = []")
    case True
    then show ?thesis by auto
  next
    case False
    then obtain r rs where rr: "runs xs = r # rs"
      by (cases "runs xs") (simp_all add: runs_Nil_iff)
    have rne: "r \<noteq> []" using runs_nonempty_elems [of r xs] rr by simp
    from False Cons.IH have IH: "runs (xs @ [x]) =
     (if last xs = x then butlast (runs xs) @ [last (runs xs) @ [x]] else runs xs @ [[x]])"
      by simp
    show ?thesis
      using False rr rne IH
      by (cases rs) (auto split: list.splits if_splits)
  qed
qed

text \<open>
  The state of the loop after the whole sequence, by induction on the sequence with one more
  element at its end: the maximum is the longest run, the current counter is the length of the
  last run, and the count holds the runs longer than 1 that came before the last run.
\<close>

lemma pattern_step_append:
  "0 < i \<Longrightarrow> i < length xs \<Longrightarrow> pattern_step (xs @ ys) st i = pattern_step xs st i"
  by (simp add: pattern_step_def nth_append)

lemma pattern_loop_snoc:
  assumes "xs \<noteq> []"
  shows "pattern_loop (xs @ [x]) =
     (let st = pattern_loop xs in
      if x = last xs
      then st\<lparr>current_consecutive := current_consecutive st + 1,
               max_consecutive := max (max_consecutive st) (current_consecutive st + 1)\<rparr>
      else st\<lparr>consecutive_same :=
                 (if current_consecutive st > 1 then consecutive_same st + 1
                  else consecutive_same st),
               current_consecutive := 1\<rparr>)"
proof -
  from assms have len: "1 \<le> length xs"
    by (cases xs) simp_all
  then have idx: "[1..<length (xs @ [x])] = [1..<length xs] @ [length xs]"
    by simp
  have pre: "foldl (pattern_step (xs @ [x])) pattern_init [1..<length xs] = pattern_loop xs"
    unfolding pattern_loop_def
    by (rule foldl_cong) (simp_all add: pattern_step_append)
  from assms have cond:
    "((xs @ [x]) ! length xs = (xs @ [x]) ! (length xs - 1)) = (x = last xs)"
    by (simp add: nth_append last_conv_nth)
  have step: "pattern_step (xs @ [x]) st (length xs) =
     (if x = last xs
      then st\<lparr>current_consecutive := current_consecutive st + 1,
               max_consecutive := max (max_consecutive st) (current_consecutive st + 1)\<rparr>
      else st\<lparr>consecutive_same :=
                 (if current_consecutive st > 1 then consecutive_same st + 1
                  else consecutive_same st),
               current_consecutive := 1\<rparr>)" for st
    unfolding pattern_step_def cond by (rule refl)
  have "pattern_loop (xs @ [x]) = pattern_step (xs @ [x]) (pattern_loop xs) (length xs)"
    unfolding pattern_loop_def [of "xs @ [x]"] idx foldl_append pre by simp
  then show ?thesis
    by (simp only: step Let_def)
qed

lemma Max_lengths_snoc:
  "rs \<noteq> [] \<Longrightarrow>
   Max (set (map length (rs @ [r]))) = max (Max (set (map length rs))) (length r)"
  by (simp add: max.commute)

lemma max_run_ge_last:
  "xs \<noteq> [] \<Longrightarrow> length (last (runs xs)) \<le> max_run xs"
  by (simp add: max_run_def runs_Nil_iff)

lemma max_run_pos: "xs \<noteq> [] \<Longrightarrow> 1 \<le> max_run xs"
proof -
  assume ne: "xs \<noteq> []"
  then have "last (runs xs) \<in> set (runs xs)"
    by (simp add: runs_Nil_iff)
  then have "last (runs xs) \<noteq> []"
    by (rule runs_nonempty_elems)
  then have "1 \<le> length (last (runs xs))"
    by (cases "last (runs xs)") simp_all
  with max_run_ge_last [OF ne] show ?thesis by linarith
qed

lemma max_run_snoc:
  assumes "xs \<noteq> []"
  shows "max_run (xs @ [x]) =
     (if last xs = x then max (max_run xs) (length (last (runs xs)) + 1) else max_run xs)"
proof -
  from assms have rne: "runs xs \<noteq> []" by (simp add: runs_Nil_iff)
  then have split: "runs xs = butlast (runs xs) @ [last (runs xs)]" by simp
  show ?thesis
  proof (cases "last xs = x")
    case False
    have "max_run (xs @ [x]) = max (max_run xs) (length [x])"
      unfolding max_run_def using Max_lengths_snoc [OF rne, of "[x]"] False assms
      by (simp add: runs_snoc)
    with max_run_pos [OF assms] False show ?thesis
      by simp
  next
    case True
    show ?thesis
    proof (cases "butlast (runs xs) = []")
      case True
      with rne obtain l where l: "runs xs = [l]"
        by (cases "runs xs") (auto split: if_splits)
      with \<open>last xs = x\<close> assms show ?thesis
        by (simp add: runs_snoc max_run_def)
    next
      case False
      have "max_run xs = max (Max (set (map length (butlast (runs xs))))) (length (last (runs xs)))"
        unfolding max_run_def using Max_lengths_snoc [OF False, of "last (runs xs)"] split by simp
      moreover have "max_run (xs @ [x]) =
         max (Max (set (map length (butlast (runs xs))))) (length (last (runs xs) @ [x]))"
        unfolding max_run_def using Max_lengths_snoc [OF False, of "last (runs xs) @ [x]"]
          \<open>last xs = x\<close> assms by (simp add: runs_snoc)
      ultimately show ?thesis using \<open>last xs = x\<close> by simp
    qed
  qed
qed

lemma pattern_loop_runs:
  "xs \<noteq> [] \<Longrightarrow> pattern_loop xs =
     \<lparr>consecutive_same = length (filter (\<lambda>r. 1 < length r) (butlast (runs xs))),
      max_consecutive = max_run xs,
      current_consecutive = length (last (runs xs))\<rparr>"
proof (induction xs rule: rev_nonempty_induct)
  case (single x)
  show ?case
    by (simp add: pattern_loop_def pattern_init_def max_run_def)
next
  case (snoc x xs)
  from snoc.hyps have rne: "runs xs \<noteq> []" by (simp add: runs_Nil_iff)
  then have split: "runs xs = butlast (runs xs) @ [last (runs xs)]" by simp
  have cnt: "length (filter (\<lambda>r. 1 < length r) (runs xs)) =
      length (filter (\<lambda>r. 1 < length r) (butlast (runs xs)))
      + (if 1 < length (last (runs xs)) then 1 else 0)"
    by (subst split) simp
  show ?case
    using snoc.hyps rne cnt
    by (simp add: pattern_loop_snoc snoc.IH max_run_snoc runs_snoc Let_def)
qed

text \<open>
  \<open>runs\<close> is the decomposition into maximal runs: the runs, put end to end, are the sequence;
  no run is empty; all values of a run are equal; two runs that follow each other hold
  different values.
\<close>

lemma concat_runs: "concat (runs xs) = xs"
  by (induction xs) (auto split: list.splits)

lemma runs_constant: "r \<in> set (runs xs) \<Longrightarrow> y \<in> set r \<Longrightarrow> y = hd r"
  by (induction xs arbitrary: r y) (auto split: list.splits if_splits)

lemma runs_maximal: "distinct_adj (map hd (runs xs))"
  by (induction xs) (auto split: list.splits simp: distinct_adj_Cons)

lemma runs_replicate: "0 < n \<Longrightarrow> runs (replicate n v) = [replicate n v]"
proof (induction n)
  case 0
  then show ?case by simp
next
  case (Suc n)
  then show ?case by (cases n) simp_all
qed

lemma runs_distinct_adj: "distinct_adj xs \<Longrightarrow> runs xs = map (\<lambda>x. [x]) xs"
proof (induction xs)
  case Nil
  then show ?case by simp
next
  case (Cons a xs)
  then show ?case by (cases xs) (simp_all add: distinct_adj_Cons)
qed

lemma max_run_replicate: "0 < n \<Longrightarrow> max_run (replicate n v) = n"
  by (simp add: max_run_def runs_replicate)

lemma max_run_distinct_adj:
  assumes "xs \<noteq> []" "distinct_adj xs"
  shows "max_run xs = 1"
proof -
  from assms(2) have "runs xs = map (\<lambda>x. [x]) xs"
    by (rule runs_distinct_adj)
  then have "set (map length (runs xs)) = (\<lambda>x. 1) ` set xs"
    by (simp add: image_image)
  also from assms(1) have "\<dots> = {1}"
    by (cases xs) auto
  finally have "set (map length (runs xs)) = {1}" .
  then show ?thesis by (simp add: max_run_def)
qed

text \<open>Everything the function prints for a non-empty sequence, and how it ends.\<close>

lemma analyze_nonempty:
  assumes "rolls \<noteq> []" and "fp_div ops (real (length rolls)) 6 \<noteq> 0"
  shows "analyze_distribution ops rolls =
    \<lparr>printed =
       [Text ''=== DICE ROLL DISTRIBUTION ANALYSIS ==='', TotalRolls (length rolls), Text '''',
        Text ''FREQUENCY ANALYSIS:'',
        Text ''Face | Count | Percentage | Expected | Deviation'', dashes]
       @ map (face_row ops rolls) [1, 2, 3, 4, 5, 6]
       @ [dashes, ChiSquare (accumulated_chi_square ops rolls),
          Text ''Critical value (5% significance, 5 df): 11.070'',
          Verdict (verdict_of ops (accumulated_chi_square ops rolls)), Text '''',
          Text ''STATISTICAL MEASURES:'', MeanLine (np_mean rolls), MedianLine (np_median rolls),
          StdDevLine (np_std rolls 1),
          MinMaxLine (foldl min (hd rolls) (tl rolls)) (foldl max (hd rolls) (tl rolls)),
          Text '''', Text ''RANGE ANALYSIS:'']
       @ map (\<lambda>(name, count). RangeRow name count
                (fp_mul ops (fp_div ops (real count) (real (length rolls))) 100))
           (ranges rolls)
       @ [Text '''', Text ''PATTERN ANALYSIS:'',
          MaxConsecutiveLine (max_consecutive (pattern_loop rolls)),
          ConsecutiveSameLine (consecutive_same (pattern_loop rolls))],
     rolls_after = rolls, outcome = Inr ()\<rparr>"
  unfolding analyze_distribution_def Let_def
  by (simp add: face_loop_nonempty [OF assms] range_loop_nonempty [OF assms(1)]
       py_min_nonempty [OF assms(1)] py_max_nonempty [OF assms(1)] accumulated_chi_square_def
       del: face_loop.simps range_loop.simps)

lemma analyze_exact:
  assumes "rolls \<noteq> []"
  shows "analyze_distribution exact_ops rolls =
    \<lparr>printed =
       [Text ''=== DICE ROLL DISTRIBUTION ANALYSIS ==='', TotalRolls (length rolls), Text '''',
        Text ''FREQUENCY ANALYSIS:'',
        Text ''Face | Count | Percentage | Expected | Deviation'', dashes]
       @ map (face_row exact_ops rolls) [1, 2, 3, 4, 5, 6]
       @ [dashes, ChiSquare (chi_square_spec rolls),
          Text ''Critical value (5% significance, 5 df): 11.070'',
          Verdict (verdict_of exact_ops (chi_square_spec rolls)), Text '''',
          Text ''STATISTICAL MEASURES:'', MeanLine (np_mean rolls), MedianLine (np_median rolls),
          StdDevLine (np_std rolls 1),
          MinMaxLine (foldl min (hd rolls) (tl rolls)) (foldl max (hd rolls) (tl rolls)),
          Text '''', Text ''RANGE ANALYSIS:'']
       @ map (\<lambda>(name, count). RangeRow name count
                (fp_mul exact_ops (fp_div exact_ops (real count) (real (length rolls))) 100))
           (ranges rolls)
       @ [Text '''', Text ''PATTERN ANALYSIS:'',
          MaxConsecutiveLine (max_consecutive (pattern_loop rolls)),
          ConsecutiveSameLine (consecutive_same (pattern_loop rolls))],
     rolls_after = rolls, outcome = Inr ()\<rparr>"
  using analyze_nonempty [OF assms exact_expected_nonzero [OF assms]]
  by (simp only: accumulated_chi_square_exact)

section \<open>The claims about the analysis\<close>

subsection \<open>Frequencies and percentages\<close>

lemma count_faces_sum:
  "set rolls \<subseteq> {1..6::int} \<Longrightarrow>
   (\<Sum>f \<leftarrow> [1, 2, 3, 4, 5, 6]. count_list rolls f) = length rolls"
proof (induction rolls)
  case Nil
  then show ?case by simp
next
  case (Cons x xs)
  then have x: "x = 1 \<or> x = 2 \<or> x = 3 \<or> x = 4 \<or> x = 5 \<or> x = 6"
    by auto
  from Cons have "(\<Sum>f \<leftarrow> [1, 2, 3, 4, 5, 6]. count_list xs f) = length xs"
    by simp
  with x show ?case
    by auto
qed

text \<open>
  C8. For every non-empty sequence of integers in 1 to 6, the frequency table printed has one
  row for every face 1 to 6, in this order, with the number of occurrences of the face (the
  counter reads 0 for a face that does not occur), and the six counts add up to the length of
  the sequence. This holds in every floating-point arithmetic in which the expected frequency
  is not zero.
\<close>

theorem frequency_table_complete:
  assumes "rolls \<noteq> []" and "set rolls \<subseteq> {1..6}"
    and "fp_div ops (real (length rolls)) 6 \<noteq> 0"
  shows "[(f, c). FaceRow f c p e d \<leftarrow> printed (analyze_distribution ops rolls)] =
           map (\<lambda>f. (f, count_list rolls f)) [1, 2, 3, 4, 5, 6]
       \<and> (\<forall>f. counter_get (Counter rolls) f = count_list rolls f)
       \<and> (\<forall>f. f \<notin> set rolls \<longrightarrow> counter_get (Counter rolls) f = 0)
       \<and> (\<Sum>f \<leftarrow> [1, 2, 3, 4, 5, 6]. counter_get (Counter rolls) f) = length rolls"
proof -
  have "[(f, c). FaceRow f c p e d \<leftarrow> printed (analyze_distribution ops rolls)] =
           map (\<lambda>f. (f, count_list rolls f)) [1, 2, 3, 4, 5, 6]"
    by (simp add: analyze_nonempty [OF assms(1) assms(3)] face_row_def dashes_def ranges_def)
  moreover have "(\<Sum>f \<leftarrow> [1, 2, 3, 4, 5, 6]. counter_get (Counter rolls) f) = length rolls"
    using count_faces_sum [OF assms(2)] by (simp add: counter_get_Counter)
  ultimately show ?thesis
    by (simp add: counter_get_Counter)
qed

theorem frequency_table_complete_witness:
  "[(f, c). FaceRow f c p e d \<leftarrow> printed (analyze_distribution exact_ops [3, 1, 3])] =
     [(1, 1), (2, 0), (3, 2), (4, 0), (5, 0), (6, 0)]
   \<and> (\<Sum>f \<leftarrow> [1, 2, 3, 4, 5, 6]. counter_get (Counter [3, 1, 3]) f) = 3"
  using frequency_table_complete [where rolls = "[3, 1, 3]" and ops = exact_ops]
  by (simp add: exact_ops_def)

lemma sum_list_scaled:
  "(\<Sum>f \<leftarrow> fs. 100 * g f / n) = 100 * (\<Sum>f \<leftarrow> fs. g f) / (n::real)"
  by (induction fs) (simp_all add: add_divide_distrib distrib_left)

lemma sum_list_real: "(\<Sum>f \<leftarrow> fs. real (h f)) = real (\<Sum>f \<leftarrow> fs. h f)"
  by (induction fs) simp_all

text \<open>
  C9. For every non-empty sequence of integers in 1 to 6, in exact arithmetic, the six
  percentages printed are 100 times the count of the face divided by the length, and they add
  up to 100.
\<close>

theorem percentages_sum_to_100:
  assumes "rolls \<noteq> []" and "set rolls \<subseteq> {1..6}"
  shows "[p. FaceRow f c p e d \<leftarrow> printed (analyze_distribution exact_ops rolls)] =
           map (\<lambda>f. 100 * real (count_list rolls f) / real (length rolls)) [1, 2, 3, 4, 5, 6]
       \<and> sum_list [p. FaceRow f c p e d \<leftarrow> printed (analyze_distribution exact_ops rolls)]
           = 100"
proof -
  have rows: "[p. FaceRow f c p e d \<leftarrow> printed (analyze_distribution exact_ops rolls)] =
           map (\<lambda>f. 100 * real (count_list rolls f) / real (length rolls)) [1, 2, 3, 4, 5, 6]"
    unfolding analyze_exact [OF assms(1)]
    by (simp add: face_row_def dashes_def ranges_def exact_ops_def)
  have "(\<Sum>f \<leftarrow> [1, 2, 3, 4, 5, 6]. 100 * real (count_list rolls f) / real (length rolls))
      = 100 * real (\<Sum>f \<leftarrow> [1, 2, 3, 4, 5, 6]. count_list rolls f) / real (length rolls)"
    by (simp only: sum_list_scaled sum_list_real)
  also have "\<dots> = 100 * real (length rolls) / real (length rolls)"
    by (simp only: count_faces_sum [OF assms(2)])
  also from assms(1) have "\<dots> = 100" by simp
  finally show ?thesis by (simp only: rows simp_thms)
qed

theorem percentages_sum_to_100_witness:
  "sum_list [p. FaceRow f c p e d \<leftarrow> printed (analyze_distribution exact_ops [2, 5, 5])] = 100"
  using percentages_sum_to_100 [of "[2, 5, 5]"] by simp

subsection \<open>The chi-square statistic and the verdict\<close>

lemma chi_square_spec_nonneg: "0 \<le> chi_square_spec rolls"
  unfolding chi_square_spec_def
  by (rule sum_list_nonneg) auto

lemma chi_square_spec_zero_iff:
  assumes "rolls \<noteq> []"
  shows "chi_square_spec rolls = 0 \<longleftrightarrow>
     (\<forall>f \<in> set [1, 2, 3, 4, 5, 6]. real (count_list rolls f) = real (length rolls) / 6)"
proof -
  from assms have pos: "0 < real (length rolls) / 6"
    by simp
  have "chi_square_spec rolls = 0 \<longleftrightarrow>
     (\<forall>t \<in> set (map (\<lambda>f. (real (count_list rolls f) - real (length rolls) / 6) ^ 2
                            / (real (length rolls) / 6)) [1, 2, 3, 4, 5, 6]). t = 0)"
    unfolding chi_square_spec_def
    by (rule sum_list_nonneg_eq_0_iff) auto
  also have "\<dots> \<longleftrightarrow>
     (\<forall>f \<in> set [1, 2, 3, 4, 5, 6]. real (count_list rolls f) = real (length rolls) / 6)"
    using pos by simp
  finally show ?thesis .
qed

text \<open>
  C4. For every non-empty sequence of integers in 1 to 6 and of length \<open>N\<close>, the chi-square
  statistic printed is the sum over the faces 1 to 6 of the squared difference between the
  count of the face and \<open>N / 6\<close>, divided by \<open>N / 6\<close>: in every arithmetic it is this sum
  with each operation in that arithmetic, and in exact arithmetic it is the sum itself. The
  sum is never negative, and it is 0 exactly when every face has the count \<open>N / 6\<close>.
\<close>

theorem chi_square_statistic:
  assumes "rolls \<noteq> []" and "set rolls \<subseteq> {1..6}"
  shows "[x. ChiSquare x \<leftarrow> printed (analyze_distribution exact_ops rolls)] =
           [chi_square_spec rolls]
       \<and> (fp_div ops (real (length rolls)) 6 \<noteq> 0 \<longrightarrow>
            [x. ChiSquare x \<leftarrow> printed (analyze_distribution ops rolls)] =
              [accumulated_chi_square ops rolls])
       \<and> accumulated_chi_square exact_ops rolls = chi_square_spec rolls
       \<and> 0 \<le> chi_square_spec rolls
       \<and> (chi_square_spec rolls = 0 \<longleftrightarrow>
            (\<forall>f \<in> set [1, 2, 3, 4, 5, 6].
               real (count_list rolls f) = real (length rolls) / 6))"
proof -
  have exact: "[x. ChiSquare x \<leftarrow> printed (analyze_distribution exact_ops rolls)] =
          [chi_square_spec rolls]"
    by (simp add: analyze_exact [OF assms(1)] face_row_def dashes_def ranges_def)
  have rounded: "fp_div ops (real (length rolls)) 6 \<noteq> 0 \<longrightarrow>
          [x. ChiSquare x \<leftarrow> printed (analyze_distribution ops rolls)] =
            [accumulated_chi_square ops rolls]"
  proof
    assume "fp_div ops (real (length rolls)) 6 \<noteq> 0"
    then show "[x. ChiSquare x \<leftarrow> printed (analyze_distribution ops rolls)] =
            [accumulated_chi_square ops rolls]"
      by (simp add: analyze_nonempty [OF assms(1)] face_row_def dashes_def ranges_def)
  qed
  from exact rounded accumulated_chi_square_exact [of rolls] chi_square_spec_nonneg [of rolls]
    chi_square_spec_zero_iff [OF assms(1)]
  show ?thesis
    by (intro conjI)
qed

theorem chi_square_statistic_witness:
  "[x. ChiSquare x \<leftarrow> printed (analyze_distribution exact_ops [1, 1, 1, 1, 1, 1])] = [30]
   \<and> [x. ChiSquare x \<leftarrow> printed (analyze_distribution exact_ops [1, 2, 3, 4, 5, 6])] = [0]"
  using chi_square_statistic [where rolls = "[1, 1, 1, 1, 1, 1]" and ops = exact_ops]
    chi_square_statistic [where rolls = "[1, 2, 3, 4, 5, 6]" and ops = exact_ops]
  by (simp add: chi_square_spec_def)

text \<open>
  C5. The verdict printed compares the chi-square statistic that the loop has added up, as
  printed on the line before, with the constant 11.070 (the double that this literal denotes),
  strictly: below it the distribution is labelled as appearing fair, and from the constant on
  (the constant itself included) as possibly not fair. The constant does not depend on the
  rolls. This holds in every floating-point arithmetic in which the expected frequency is not
  zero.
\<close>

theorem verdict_strict_threshold:
  assumes "rolls \<noteq> []" and "fp_div ops (real (length rolls)) 6 \<noteq> 0"
  shows "[x. ChiSquare x \<leftarrow> printed (analyze_distribution ops rolls)] =
           [accumulated_chi_square ops rolls]
       \<and> [v. Verdict v \<leftarrow> printed (analyze_distribution ops rolls)] =
           [if accumulated_chi_square ops rolls < fp_literal ops 11.070
            then AppearsFair else MayNotBeFair]
       \<and> verdict_of ops (fp_literal ops 11.070) = MayNotBeFair
       \<and> critical_value ops = fp_literal ops 11.070"
  by (simp add: analyze_nonempty [OF assms] face_row_def dashes_def ranges_def
       verdict_of_def critical_value_def)

theorem verdict_strict_threshold_witness:
  "[v. Verdict v \<leftarrow> printed (analyze_distribution exact_ops [1, 1, 1, 1, 1, 1])] = [MayNotBeFair]
   \<and> [v. Verdict v \<leftarrow> printed (analyze_distribution exact_ops [1, 2, 3, 4, 5, 6])] = [AppearsFair]"
  using verdict_strict_threshold [where rolls = "[1, 1, 1, 1, 1, 1]" and ops = exact_ops]
    verdict_strict_threshold [where rolls = "[1, 2, 3, 4, 5, 6]" and ops = exact_ops]
  by (simp add: accumulated_chi_square_exact chi_square_spec_def) (simp add: exact_ops_def)

subsection \<open>The standard deviation\<close>

lemma np_std_two_or_more:
  assumes "2 \<le> length rolls"
  shows "np_std rolls 1 = Fin (sample_std_spec rolls)"
proof -
  let ?n = "real (length rolls)"
  let ?m = "real_of_int (sum_list rolls) / ?n"
  let ?ss = "\<Sum>x \<leftarrow> rolls. (real_of_int x - ?m) ^ 2"
  from assms have n0: "?n \<noteq> 0" by auto
  then have mean: "np_mean rolls = Fin ?m"
    by (simp add: np_mean_def np_true_divide_def)
  from assms have cnt: "real (length rolls - 1) = ?n - 1" "?n - 1 \<noteq> 0" "0 < ?n - 1"
    by (auto simp: of_nat_diff)
  have var: "np_var rolls 1 = Fin (?ss / (?n - 1))"
    using cnt by (simp add: np_var_def mean Let_def np_true_divide_def o_def power2_eq_square)
  have "0 \<le> ?ss"
    by (rule sum_list_nonneg) auto
  with cnt(3) have "0 \<le> ?ss / (?n - 1)"
    by simp
  then show ?thesis
    unfolding np_std_def var
    by (simp add: np_sqrt_def sample_std_spec_def Let_def)
qed

lemma np_std_single:
  assumes "length rolls = 1"
  shows "np_std rolls 1 = NaN"
proof -
  from assms obtain a where "rolls = [a]"
    by (cases rolls) auto
  then show ?thesis
    by (simp add: np_std_def np_var_def np_mean_def np_true_divide_def np_sqrt_def)
qed

text \<open>
  C3, as amended. The standard deviation printed is the sample standard deviation with
  Bessel's correction (the sum of the squared deviations from the mean is divided by
  \<open>N - 1\<close>) for every sequence of two rolls or more. For a single roll the divisor is 0 and
  no error is raised: the value is NaN, it is printed, and the analysis runs to its end (in
  every arithmetic in which the expected frequency is not zero).
\<close>

theorem std_dev_bessel_and_nan_on_single_roll:
  "(2 \<le> length rolls \<longrightarrow> np_std rolls 1 = Fin (sample_std_spec rolls))
   \<and> (length rolls = 1 \<longrightarrow> np_std rolls 1 = NaN)
   \<and> (rolls \<noteq> [] \<and> fp_div ops (real (length rolls)) 6 \<noteq> 0 \<longrightarrow>
        [v. StdDevLine v \<leftarrow> printed (analyze_distribution ops rolls)] = [np_std rolls 1]
        \<and> outcome (analyze_distribution ops rolls) = Inr ())"
proof -
  have "[v. StdDevLine v \<leftarrow> printed (analyze_distribution ops rolls)] = [np_std rolls 1]
        \<and> outcome (analyze_distribution ops rolls) = Inr ()"
    if "rolls \<noteq> []" and "fp_div ops (real (length rolls)) 6 \<noteq> 0"
    by (simp add: analyze_nonempty [OF that] face_row_def dashes_def ranges_def)
  then show ?thesis
    using np_std_two_or_more [of rolls] np_std_single [of rolls] by blast
qed

theorem std_dev_bessel_and_nan_on_single_roll_witness:
  "[v. StdDevLine v \<leftarrow> printed (analyze_distribution exact_ops [2, 4])] = [Fin (sqrt 2)]
   \<and> np_std [5] 1 = NaN"
  using std_dev_bessel_and_nan_on_single_roll [where rolls = "[2, 4]" and ops = exact_ops]
    std_dev_bessel_and_nan_on_single_roll [where rolls = "[5]" and ops = exact_ops]
  by (simp add: sample_std_spec_def exact_ops_def)

text \<open>
  C3 as stated fails: on the single roll [4] the analysis ends without any error and prints
  NaN as the standard deviation.
\<close>

theorem single_roll_no_error_counterexample:
  "outcome (analyze_distribution exact_ops [4]) = Inr ()
   \<and> [v. StdDevLine v \<leftarrow> printed (analyze_distribution exact_ops [4])] = [NaN]"
  using analyze_exact [of "[4]"] np_std_single [of "[4]"]
  by (simp add: face_row_def dashes_def ranges_def)

subsection \<open>Effects\<close>

text \<open>
  C6, as amended. For every non-empty sequence the function leaves the sequence as it was,
  returns no value, and prints its report: 31 lines, the first two being the title and the
  number of rolls (in every arithmetic in which the expected frequency is not zero).
\<close>

theorem analyzer_prints_and_keeps_input:
  assumes "rolls \<noteq> []" and "fp_div ops (real (length rolls)) 6 \<noteq> 0"
  shows "rolls_after (analyze_distribution ops rolls) = rolls
       \<and> outcome (analyze_distribution ops rolls) = Inr ()
       \<and> length (printed (analyze_distribution ops rolls)) = 31
       \<and> take 2 (printed (analyze_distribution ops rolls)) =
           [Text ''=== DICE ROLL DISTRIBUTION ANALYSIS ==='', TotalRolls (length rolls)]"
  by (simp add: analyze_nonempty [OF assms] ranges_def)

theorem analyzer_prints_and_keeps_input_witness:
  "rolls_after (analyze_distribution exact_ops [6, 2]) = [6, 2]
   \<and> take 2 (printed (analyze_distribution exact_ops [6, 2])) =
        [Text ''=== DICE ROLL DISTRIBUTION ANALYSIS ==='', TotalRolls 2]"
  using analyzer_prints_and_keeps_input [where rolls = "[6, 2]" and ops = exact_ops]
  by (simp add: exact_ops_def)

text \<open>
  C6 as stated fails: on the sequence [3] the function prints, and its first line is the
  title.
\<close>

theorem analyzer_prints_counterexample:
  "printed (analyze_distribution exact_ops [3]) \<noteq> []
   \<and> hd (printed (analyze_distribution exact_ops [3])) =
        Text ''=== DICE ROLL DISTRIBUTION ANALYSIS ===''"
  using analyze_exact [of "[3]"] by simp

subsection \<open>Consecutive runs\<close>

lemma printed_pattern_lines:
  assumes "rolls \<noteq> []" and "fp_div ops (real (length rolls)) 6 \<noteq> 0"
  shows "[m. MaxConsecutiveLine m \<leftarrow> printed (analyze_distribution ops rolls)] =
           [max_consecutive (pattern_loop rolls)]"
    and "[n. ConsecutiveSameLine n \<leftarrow> printed (analyze_distribution ops rolls)] =
           [consecutive_same (pattern_loop rolls)]"
  by (simp_all add: analyze_nonempty [OF assms] face_row_def dashes_def ranges_def)

lemma all_same_replicate:
  "\<forall>x \<in> set xs. x = hd xs \<Longrightarrow> xs = replicate (length xs) (hd xs)"
  by (simp add: replicate_length_same)

text \<open>
  C7. For every non-empty sequence, the maximum that the loop computes, and that is printed
  (in every arithmetic in which the expected frequency is not zero), is the length of the
  longest maximal run of equal consecutive values. It is at least 1, it is the length of the
  sequence when all values are the same, and it is 1 when no two neighbours are equal.
\<close>

theorem max_run_is_longest_run:
  assumes "rolls \<noteq> []"
  shows "(fp_div ops (real (length rolls)) 6 \<noteq> 0 \<longrightarrow>
          [m. MaxConsecutiveLine m \<leftarrow> printed (analyze_distribution ops rolls)] =
            [max_run rolls])
       \<and> max_consecutive (pattern_loop rolls) = max_run rolls
       \<and> 1 \<le> max_run rolls
       \<and> ((\<forall>x \<in> set rolls. x = hd rolls) \<longrightarrow> max_run rolls = length rolls)
       \<and> (distinct_adj rolls \<longrightarrow> max_run rolls = 1)"
proof -
  have loop: "max_consecutive (pattern_loop rolls) = max_run rolls"
    by (simp add: pattern_loop_runs [OF assms])
  have same: "max_run rolls = length rolls" if "\<forall>x \<in> set rolls. x = hd rolls"
  proof -
    from that have "rolls = replicate (length rolls) (hd rolls)"
      by (rule all_same_replicate)
    moreover from assms have "0 < length rolls" by simp
    ultimately show ?thesis
      using max_run_replicate [of "length rolls" "hd rolls"] by simp
  qed
  from loop same max_run_pos [OF assms] max_run_distinct_adj [OF assms]
    printed_pattern_lines(1) [OF assms, of ops]
  show ?thesis by simp
qed

theorem max_run_is_longest_run_witness:
  "[m. MaxConsecutiveLine m \<leftarrow> printed (analyze_distribution exact_ops [2, 2, 5, 5, 5, 1])]
     = [3]
   \<and> max_consecutive (pattern_loop [2, 2, 5, 5, 5, 1]) = 3
   \<and> max_run [4, 4, 4, 4] = 4 \<and> max_run [1, 2, 1, 2] = 1"
  using max_run_is_longest_run [where rolls = "[2, 2, 5, 5, 5, 1]" and ops = exact_ops]
    max_run_is_longest_run [where rolls = "[4, 4, 4, 4]" and ops = exact_ops]
    max_run_is_longest_run [where rolls = "[1, 2, 1, 2]" and ops = exact_ops]
  by (simp add: max_run_def exact_ops_def)

text \<open>
  The other counter is raised when a run ends because the next value differs, and only then:
  it counts the runs longer than 1 among all runs but the last one.
\<close>

lemma consecutive_same_misses_last_run:
  assumes "rolls \<noteq> []"
  shows "consecutive_same (pattern_loop rolls) + (if 1 < length (last (runs rolls)) then 1 else 0)
         = run_count rolls"
proof -
  from assms have "runs rolls \<noteq> []" by (simp add: runs_Nil_iff)
  then have "runs rolls = butlast (runs rolls) @ [last (runs rolls)]" by simp
  then have "run_count rolls =
      length (filter (\<lambda>r. 1 < length r) (butlast (runs rolls) @ [last (runs rolls)]))"
    unfolding run_count_def by simp
  then show ?thesis
    by (simp add: pattern_loop_runs [OF assms])
qed

text \<open>
  C1. The number of runs longer than 1 of the sequence [1, 1, 1, 1, 1, 1] is 1, as the claim
  says, and the function prints 0: the run that ends the sequence is not counted.
\<close>

theorem run_count_misses_trailing_streak:
  "consecutive_same (pattern_loop [1, 1, 1, 1, 1, 1]) = 0
   \<and> [n. ConsecutiveSameLine n \<leftarrow> printed (analyze_distribution exact_ops [1, 1, 1, 1, 1, 1])]
       = [0]
   \<and> run_count [1, 1, 1, 1, 1, 1] = 1"
  using printed_pattern_lines(2) [where rolls = "[1, 1, 1, 1, 1, 1]" and ops = exact_ops]
    pattern_loop_runs [of "[1, 1, 1, 1, 1, 1]"]
  by (simp add: run_count_def exact_ops_def)

end
